theory Spec2Isabelle
  imports Main
begin

section \<open>JavaScript objects used as string-keyed records\<close>

text \<open>
  Both providers keep their data in plain objects typed
  \<^verbatim>\<open>Record<string, Record<string, string>>\<close>. An object is modelled by the list of its own
  enumerable entries in the order of their creation; an own key occurs once. (An engine
  enumerates keys that are array indices before the others; no statement below is about
  the order of a provider's entries.)
  A plain object inherits from \<^verbatim>\<open>Object.prototype\<close>, so a property read that finds no own
  entry still answers for the member names of that prototype. The built-in objects themselves
  are taken in their initial state and are not part of the modelled state.
\<close>

type_synonym 'a obj = "(string \<times> 'a) list"

definition object_prototype_names :: "string list" where
  "object_prototype_names =
     [''constructor'', ''__defineGetter__'', ''__defineSetter__'', ''hasOwnProperty'',
      ''__lookupGetter__'', ''__lookupSetter__'', ''isPrototypeOf'', ''propertyIsEnumerable'',
      ''toString'', ''valueOf'', ''__proto__'', ''toLocaleString'']"

datatype 'a lookup = Own 'a | Inherited string | Absent

text \<open>\<^verbatim>\<open>o[name]\<close> on a plain object: the own entry first, then the prototype.\<close>

definition prop_read :: "'a obj \<Rightarrow> string \<Rightarrow> 'a lookup" where
  "prop_read ob name =
     (case map_of ob name of
        Some v \<Rightarrow> Own v
      | None \<Rightarrow> if name \<in> set object_prototype_names then Inherited name else Absent)"

text \<open>
  Replacing the value of an own entry keeps its place; a new entry goes to the end.
\<close>

fun put :: "'a obj \<Rightarrow> string \<Rightarrow> 'a \<Rightarrow> 'a obj" where
  "put [] name v = [(name, v)]"
| "put ((n, w) # ob) name v = (if n = name then (n, v) # ob else (n, w) # put ob name v)"

text \<open>
  \<^verbatim>\<open>o[name] = value\<close> for a string \<^verbatim>\<open>value\<close> on a plain object. Every data property of
  \<^verbatim>\<open>Object.prototype\<close> is writable, so the assignment makes or updates an own entry; the
  one accessor, \<^verbatim>\<open>__proto__\<close>, has a setter that ignores a value that is not an object.
\<close>

definition assign_string :: "string obj \<Rightarrow> string \<Rightarrow> string \<Rightarrow> string obj" where
  "assign_string ob name v =
     (if map_of ob name = None \<and> name = ''__proto__'' then ob else put ob name v)"

text \<open>
  \<^verbatim>\<open>o[name] = value\<close> for an object \<^verbatim>\<open>value\<close>: on \<^verbatim>\<open>__proto__\<close> without an own entry the
  setter re-links the prototype of \<^verbatim>\<open>o\<close>, which the entry list does not track.
\<close>

datatype 'a tracked = Tracked 'a | Untracked

definition assign_object :: "'a obj \<Rightarrow> string \<Rightarrow> 'a \<Rightarrow> 'a obj tracked" where
  "assign_object ob name v =
     (if map_of ob name = None \<and> name = ''__proto__'' then Untracked
      else Tracked (put ob name v))"

text \<open>The spread \<^verbatim>\<open>{ ...o }\<close> defines every own enumerable entry of \<^verbatim>\<open>o\<close> on a fresh object.\<close>

definition spread :: "'a obj \<Rightarrow> 'a obj" where
  "spread ob = fold (\<lambda>(n, v) acc. put acc n v) ob []"

type_synonym sect = "string obj"
type_synonym store = "sect obj"

text \<open>
  What a read through two levels can hand back: a stored string, \<^verbatim>\<open>undefined\<close>,
  \<^verbatim>\<open>null\<close>, a member of \<^verbatim>\<open>Object.prototype\<close> (a function, or for \<^verbatim>\<open>__proto__\<close> the
  prototype object itself), or a property that such a function has (\<open>BuiltinMember m key\<close>
  is the value of \<^verbatim>\<open>Object.prototype[m][key]\<close>, never \<^verbatim>\<open>undefined\<close>). The read can also throw.
\<close>

datatype got = Str string | Undefined | Null | Builtin string | BuiltinMember string string | Throws


section \<open>Values handed over by the codec\<close>

text \<open>
  \<^verbatim>\<open>ini.parse\<close> is typed as returning \<^verbatim>\<open>{ [key: string]: any }\<close>. The values it builds are
  strings, booleans, \<^verbatim>\<open>null\<close>, numbers (a quoted value goes through \<^verbatim>\<open>JSON.parse\<close>), arrays
  (for \<^verbatim>\<open>key[] = v\<close> lines) and nested objects (for sections, and for dotted section names
  one level deeper). An object either inherits from \<^verbatim>\<open>Object.prototype\<close> (\<open>plain = True\<close>) or
  was made by \<^verbatim>\<open>Object.create(null)\<close>. A number is an integer that a double holds exactly
  and prints in full (below ten to the power 21 in size); fractions are floating point and are not
  covered.
\<close>

datatype jsval =
    JString string
  | JNumber int
  | JBool bool
  | JNull
  | JArray "jsval list"
  | JObject (plain: bool) "(string \<times> jsval) list"

datatype js_error = JsError (code: "string option")

definition TypeError :: js_error where
  "TypeError = JsError None"

text \<open>\<^verbatim>\<open>typeof values === 'object' && values !== null\<close>\<close>

fun is_object :: "jsval \<Rightarrow> bool" where
  "is_object (JArray _) = True"
| "is_object (JObject _ _) = True"
| "is_object _ = False"

definition digit :: "nat \<Rightarrow> char" where
  "digit d = ''0123456789'' ! d"

fun decimal :: "nat \<Rightarrow> string" where
  "decimal n = (if n < 10 then [digit n] else decimal (n div 10) @ [digit (n mod 10)])"

declare decimal.simps [simp del]

text \<open>\<^verbatim>\<open>Object.entries(values)\<close>: an array answers with its indices as keys.\<close>

fun entries :: "jsval \<Rightarrow> (string \<times> jsval) list" where
  "entries (JObject _ es) = es"
| "entries (JArray xs) = zip (map decimal [0..<length xs]) xs"
| "entries _ = []"

fun join :: "string \<Rightarrow> string list \<Rightarrow> string" where
  "join sep [] = []"
| "join sep [x] = x"
| "join sep (x # y # ys) = x @ sep @ join sep (y # ys)"

fun collect :: "(js_error + 'a) list \<Rightarrow> js_error + 'a list" where
  "collect [] = Inr []"
| "collect (Inl e # _) = Inl e"
| "collect (Inr x # rs) = (case collect rs of Inl e \<Rightarrow> Inl e | Inr xs \<Rightarrow> Inr (x # xs))"

text \<open>
  \<^verbatim>\<open>String(value)\<close>. An array joins its elements with commas, \<^verbatim>\<open>null\<close> elements as the
  empty string. An object is converted through its \<^verbatim>\<open>toString\<close>, then its \<^verbatim>\<open>valueOf\<close>:
  a plain object without an own \<^verbatim>\<open>toString\<close> entry answers \<^verbatim>\<open>[object Object]\<close>; an own
  \<^verbatim>\<open>toString\<close> entry holds data, not a function, and \<^verbatim>\<open>valueOf\<close> then yields no primitive;
  an object without a prototype has neither method. Those conversions throw a TypeError.
\<close>

fun js_String :: "jsval \<Rightarrow> js_error + string" where
  "js_String (JString s) = Inr s"
| "js_String (JNumber n) = Inr (if n < 0 then ''-'' @ decimal (nat (- n)) else decimal (nat n))"
| "js_String (JBool b) = Inr (if b then ''true'' else ''false'')"
| "js_String JNull = Inr ''null''"
| "js_String (JArray xs) =
     (case collect (map (\<lambda>x. if x = JNull then Inr [] else js_String x) xs) of
        Inl e \<Rightarrow> Inl e
      | Inr ss \<Rightarrow> Inr (join '','' ss))"
| "js_String (JObject pl es) =
     (if pl \<and> map_of es ''toString'' = None then Inr ''[object Object]'' else Inl TypeError)"

section \<open>The file system and the codec, as the provider sees them\<close>

datatype fault = EACCES | EPERM | EIO | EROFS | ENOSPC | ENOTDIR | ELOOP

fun errno :: "fault \<Rightarrow> string" where
  "errno EACCES = ''EACCES''"
| "errno EPERM = ''EPERM''"
| "errno EIO = ''EIO''"
| "errno EROFS = ''EROFS''"
| "errno ENOSPC = ''ENOSPC''"
| "errno ENOTDIR = ''ENOTDIR''"
| "errno ELOOP = ''ELOOP''"

text \<open>
  A path holds nothing, a directory, or a regular file with its text; a file may carry a
  fault that makes every read of it fail, and one that makes every write fail. A path can
  also be out of reach: it runs through something that is not a directory, or through a
  directory that may not be searched. Then \<^verbatim>\<open>existsSync\<close> answers false, and a read or a
  write fails with the fault met on the way, which is not ENOENT.
\<close>

datatype node =
    Directory
  | File (read_fault: "fault option") (write_fault: "fault option") (text_of: string)
  | Unreachable fault

type_synonym filesystem = "string \<Rightarrow> node option"

definition existsSync :: "filesystem \<Rightarrow> string \<Rightarrow> bool" where
  "existsSync fs path =
     (case fs path of
        None \<Rightarrow> False
      | Some (Unreachable f) \<Rightarrow> False
      | Some Directory \<Rightarrow> True
      | Some (File rflt wflt t) \<Rightarrow> True)"

definition readFileSync :: "filesystem \<Rightarrow> string \<Rightarrow> js_error + string" where
  "readFileSync fs path =
     (case fs path of
        None \<Rightarrow> Inl (JsError (Some ''ENOENT''))
      | Some Directory \<Rightarrow> Inl (JsError (Some ''EISDIR''))
      | Some (Unreachable f) \<Rightarrow> Inl (JsError (Some (errno f)))
      | Some (File rflt wflt t) \<Rightarrow>
          (case rflt of Some f \<Rightarrow> Inl (JsError (Some (errno f))) | None \<Rightarrow> Inr t))"

text \<open>
  A write to a missing path creates the file (its directory is taken to exist); a failed
  write is taken to leave the file system as it was.
\<close>

definition writeFileSync :: "filesystem \<Rightarrow> string \<Rightarrow> string \<Rightarrow> js_error + filesystem" where
  "writeFileSync fs path content =
     (case fs path of
        None \<Rightarrow> Inr (fs(path \<mapsto> File None None content))
      | Some Directory \<Rightarrow> Inl (JsError (Some ''EISDIR''))
      | Some (Unreachable f) \<Rightarrow> Inl (JsError (Some (errno f)))
      | Some (File rflt wflt t) \<Rightarrow>
          (case wflt of
             Some f \<Rightarrow> Inl (JsError (Some (errno f)))
           | None \<Rightarrow> Inr (fs(path \<mapsto> File rflt wflt content))))"

text \<open>
  The options that \<^verbatim>\<open>save\<close> hands to \<^verbatim>\<open>ini.stringify\<close>: \<^verbatim>\<open>section\<close>, which the codec
  puts, with a dot, in front of every section name it writes, and \<^verbatim>\<open>whitespace\<close>, which
  puts blanks around the equals sign.
\<close>

record stringify_options =
  section_option :: string
  whitespace_option :: bool

text \<open>
  The collaborators outside the repository: \<^verbatim>\<open>path.resolve\<close>, and \<^verbatim>\<open>ini.parse\<close> and
  \<^verbatim>\<open>ini.stringify\<close>, each of which may throw.
\<close>

record env =
  path_resolve :: "string \<Rightarrow> string"
  ini_parse :: "string \<Rightarrow> js_error + (string \<times> jsval) list"
  ini_stringify :: "store \<Rightarrow> stringify_options \<Rightarrow> js_error + string"


section \<open>Reads and writes of the cache, shared by both providers\<close>

text \<open>
  \<^verbatim>\<open>Object.prototype[key]\<close>, which is what a read of \<^verbatim>\<open>__proto__\<close> on a plain object
  continues with; the prototype of \<^verbatim>\<open>Object.prototype\<close> is \<^verbatim>\<open>null\<close>.
\<close>

definition prototype_member :: "string \<Rightarrow> got" where
  "prototype_member key =
     (if key = ''__proto__'' then Null
      else if key \<in> set object_prototype_names then Builtin key
      else Undefined)"

text \<open>
  The members of \<^verbatim>\<open>Object.prototype\<close> other than \<^verbatim>\<open>__proto__\<close> are built-in functions;
  \<^verbatim>\<open>constructor\<close> is \<^verbatim>\<open>Object\<close> with its static methods (those of ECMAScript 2024). A
  built-in function has the own properties \<^verbatim>\<open>length\<close> and \<^verbatim>\<open>name\<close> and inherits from
  \<^verbatim>\<open>Function.prototype\<close>, whose accessors \<^verbatim>\<open>caller\<close> and \<^verbatim>\<open>arguments\<close> throw a TypeError,
  and from there from \<^verbatim>\<open>Object.prototype\<close>.
\<close>

definition object_constructor_names :: "string list" where
  "object_constructor_names =
     [''length'', ''name'', ''prototype'', ''assign'', ''create'', ''defineProperties'',
      ''defineProperty'', ''entries'', ''freeze'', ''fromEntries'', ''getOwnPropertyDescriptor'',
      ''getOwnPropertyDescriptors'', ''getOwnPropertyNames'', ''getOwnPropertySymbols'',
      ''getPrototypeOf'', ''groupBy'', ''hasOwn'', ''is'', ''isExtensible'', ''isFrozen'',
      ''isSealed'', ''keys'', ''preventExtensions'', ''seal'', ''setPrototypeOf'', ''values'']"

definition function_prototype_names :: "string list" where
  "function_prototype_names =
     [''length'', ''name'', ''apply'', ''bind'', ''call'', ''constructor'', ''toString'']"

text \<open>\<^verbatim>\<open>f[key]\<close> for the built-in function \<^verbatim>\<open>f = Object.prototype[m]\<close>.\<close>

definition function_member :: "string \<Rightarrow> string \<Rightarrow> got" where
  "function_member m key =
     (if key \<in> set (if m = ''constructor'' then object_constructor_names else [''length'', ''name''])
      then BuiltinMember m key
      else if key = ''caller'' \<or> key = ''arguments'' then Throws
      else if key \<in> set function_prototype_names \<or> key \<in> set object_prototype_names
      then BuiltinMember m key
      else Undefined)"

text \<open>\<^verbatim>\<open>this.config[section]?.[key]\<close>\<close>

definition read_value :: "store \<Rightarrow> string \<Rightarrow> string \<Rightarrow> got" where
  "read_value c section key =
     (case prop_read c section of
        Own sec \<Rightarrow>
          (case prop_read sec key of
             Own v \<Rightarrow> Str v
           | Inherited m \<Rightarrow> Builtin m
           | Absent \<Rightarrow> Undefined)
      | Inherited m \<Rightarrow> if m = ''__proto__'' then prototype_member key else function_member m key
      | Absent \<Rightarrow> Undefined)"

text \<open>
  \<^verbatim>\<open>this.config[section] ? { ...this.config[section] } : undefined\<close>. Every member of
  \<^verbatim>\<open>Object.prototype\<close> is an object or a function, hence truthy, and has no own enumerable
  entry to spread.
\<close>

definition read_section :: "store \<Rightarrow> string \<Rightarrow> sect option" where
  "read_section c section =
     (case prop_read c section of
        Own sec \<Rightarrow> Some (spread sec)
      | Inherited m \<Rightarrow> Some []
      | Absent \<Rightarrow> None)"

text \<open>
  \<^verbatim>\<open>if (!this.config[section]) { this.config[section] = {} }\<close>
  \<^verbatim>\<open>this.config[section][key] = value\<close>
  When the section name reads a member of \<^verbatim>\<open>Object.prototype\<close>, the assignment lands on
  that built-in object, outside the cache.
\<close>

definition write_value :: "store \<Rightarrow> string \<Rightarrow> string \<Rightarrow> string \<Rightarrow> store tracked" where
  "write_value c section key v =
     (case (if prop_read c section = Absent then assign_object c section [] else Tracked c) of
        Untracked \<Rightarrow> Untracked
      | Tracked c1 \<Rightarrow>
          (case prop_read c1 section of
             Own sec \<Rightarrow> Tracked (put c1 section (assign_string sec key v))
           | Inherited m \<Rightarrow> Untracked
           | Absent \<Rightarrow> Untracked))"

text \<open>
  \<^verbatim>\<open>for (const [section, values] of Object.entries(this.config)) result[section] = { ...values }\<close>
\<close>

fun copy_sections :: "store \<Rightarrow> store \<Rightarrow> store tracked" where
  "copy_sections result [] = Tracked result"
| "copy_sections result ((section, vals) # rest) =
     (case assign_object result section (spread vals) of
        Untracked \<Rightarrow> Untracked
      | Tracked r \<Rightarrow> copy_sections r rest)"

section \<open>MockConfigProvider\<close>

record MockConfigProvider =
  mock_config :: store

text \<open>\<^verbatim>\<open>JSON.parse(JSON.stringify(data))\<close> on sections of strings: every object is built anew.\<close>

definition json_copy :: "store \<Rightarrow> store" where
  "json_copy d = spread (map (\<lambda>(section, vals). (section, spread vals)) d)"

definition new_MockConfigProvider :: "store option \<Rightarrow> MockConfigProvider" where
  "new_MockConfigProvider initial_config =
     (case initial_config of
        Some d \<Rightarrow> \<lparr>mock_config = json_copy d\<rparr>
      | None \<Rightarrow> \<lparr>mock_config = []\<rparr>)"

definition mock_get :: "MockConfigProvider \<Rightarrow> string \<Rightarrow> string \<Rightarrow> got" where
  "mock_get this section key = read_value (mock_config this) section key"

definition mock_getSection :: "MockConfigProvider \<Rightarrow> string \<Rightarrow> sect option" where
  "mock_getSection this section = read_section (mock_config this) section"

definition mock_set ::
  "MockConfigProvider \<Rightarrow> string \<Rightarrow> string \<Rightarrow> string \<Rightarrow> MockConfigProvider tracked" where
  "mock_set this section key v =
     (case write_value (mock_config this) section key v of
        Untracked \<Rightarrow> Untracked
      | Tracked c \<Rightarrow> Tracked (this\<lparr>mock_config := c\<rparr>))"

definition mock_save :: "MockConfigProvider \<Rightarrow> MockConfigProvider" where
  "mock_save this = this"

definition mock_refresh :: "MockConfigProvider \<Rightarrow> MockConfigProvider" where
  "mock_refresh this = this"

definition mock_getAllSections :: "MockConfigProvider \<Rightarrow> store tracked" where
  "mock_getAllSections this = copy_sections [] (mock_config this)"

definition reset :: "MockConfigProvider \<Rightarrow> store option \<Rightarrow> MockConfigProvider" where
  "reset this new_config =
     (case new_config of
        Some d \<Rightarrow> this\<lparr>mock_config := json_copy d\<rparr>
      | None \<Rightarrow> this\<lparr>mock_config := []\<rparr>)"

section \<open>HazoConfig\<close>

datatype ConfigErrorCode = FILE_NOT_FOUND | READ_ERROR | WRITE_ERROR | PARSE_ERROR | VALIDATION_ERROR

fun code_text :: "ConfigErrorCode \<Rightarrow> string" where
  "code_text FILE_NOT_FOUND = ''HAZO_CONFIG_FILE_NOT_FOUND''"
| "code_text READ_ERROR = ''HAZO_CONFIG_READ_ERROR''"
| "code_text WRITE_ERROR = ''HAZO_CONFIG_WRITE_ERROR''"
| "code_text PARSE_ERROR = ''HAZO_CONFIG_PARSE_ERROR''"
| "code_text VALIDATION_ERROR = ''HAZO_CONFIG_VALIDATION_ERROR''"

text \<open>
  The error a method throws: its \<^verbatim>\<open>code\<close> and, where the method sets it, \<^verbatim>\<open>originalError\<close>.
  The message text is left out. So are the calls of the injected logger: the logger is taken
  to return from every call, as the default no-op logger does, and it has no part in the
  cache or the file.
\<close>

datatype config_error = ConfigError (config_code: ConfigErrorCode) (originalError: "js_error option")

text \<open>
  A call returns, or throws and leaves the instance in the state reached so far, or re-links
  a prototype, after which the entry lists no longer describe the objects.
\<close>

datatype ('e, 's) run = Normal 's | Abrupt 'e 's | Lost

record HazoConfig =
  filePath :: string
  config :: store

definition get :: "HazoConfig \<Rightarrow> string \<Rightarrow> string \<Rightarrow> got" where
  "get this section key = read_value (config this) section key"

definition getSection :: "HazoConfig \<Rightarrow> string \<Rightarrow> sect option" where
  "getSection this section = read_section (config this) section"

definition set_value :: "HazoConfig \<Rightarrow> string \<Rightarrow> string \<Rightarrow> string \<Rightarrow> HazoConfig tracked" where
  "set_value this section key v =
     (case write_value (config this) section key v of
        Untracked \<Rightarrow> Untracked
      | Tracked c \<Rightarrow> Tracked (this\<lparr>config := c\<rparr>))"

definition getAllSections :: "HazoConfig \<Rightarrow> store tracked" where
  "getAllSections this = copy_sections [] (config this)"

definition getFilePath :: "HazoConfig \<Rightarrow> string" where
  "getFilePath this = filePath this"

text \<open>
  \<^verbatim>\<open>save\<close> calls \<^verbatim>\<open>ini.stringify(this.config, { section: '[', whitespace: true })\<close>.
  Whatever the \<^verbatim>\<open>try\<close> block throws, from the codec or from the write, is rethrown as a
  WRITE_ERROR. The instance is returned as it was passed in.
\<close>

definition save :: "env \<Rightarrow> filesystem \<Rightarrow> HazoConfig \<Rightarrow> (config_error, HazoConfig) run \<times> filesystem" where
  "save e fs this =
     (case ini_stringify e (config this) \<lparr>section_option = ''['', whitespace_option = True\<rparr> of
        Inl err \<Rightarrow> (Abrupt (ConfigError WRITE_ERROR (Some err)) this, fs)
      | Inr iniContent \<Rightarrow>
          (case writeFileSync fs (filePath this) iniContent of
             Inl err \<Rightarrow> (Abrupt (ConfigError WRITE_ERROR (Some err)) this, fs)
           | Inr fs' \<Rightarrow> (Normal this, fs')))"

text \<open>
  The inner loop of \<^verbatim>\<open>refresh\<close>, on the section object just created:
  \<^verbatim>\<open>this.config[section][key] = String(value)\<close>
\<close>

fun fill_section :: "sect \<Rightarrow> (string \<times> jsval) list \<Rightarrow> (js_error, sect) run" where
  "fill_section sec [] = Normal sec"
| "fill_section sec ((key, v) # rest) =
     (case js_String v of
        Inl err \<Rightarrow> Abrupt err sec
      | Inr s \<Rightarrow> fill_section (assign_string sec key s) rest)"

text \<open>
  The outer loop, started on the fresh \<^verbatim>\<open>this.config = {}\<close>. An entry that passes the
  \<^verbatim>\<open>typeof\<close> test first puts an empty section object under its name.
\<close>

fun rebuild :: "store \<Rightarrow> (string \<times> jsval) list \<Rightarrow> (js_error, store) run" where
  "rebuild c [] = Normal c"
| "rebuild c ((section, vals) # rest) =
     (if is_object vals then
        (case assign_object c section [] of
           Untracked \<Rightarrow> Lost
         | Tracked c1 \<Rightarrow>
             (case fill_section [] (entries vals) of
                Normal sec \<Rightarrow> rebuild (put c1 section sec) rest
              | Abrupt err sec \<Rightarrow> Abrupt err (put c1 section sec)
              | Lost \<Rightarrow> Lost))
      else rebuild c rest)"

text \<open>The \<^verbatim>\<open>catch\<close> block of \<^verbatim>\<open>refresh\<close>.\<close>

definition refresh_catch :: "js_error \<Rightarrow> HazoConfig \<Rightarrow> (config_error, HazoConfig) run" where
  "refresh_catch err this =
     (if code err = Some ''ENOENT'' then Abrupt (ConfigError FILE_NOT_FOUND None) this
      else Abrupt (ConfigError PARSE_ERROR (Some err)) this)"

definition refresh :: "env \<Rightarrow> filesystem \<Rightarrow> HazoConfig \<Rightarrow> (config_error, HazoConfig) run" where
  "refresh e fs this =
     (case readFileSync fs (filePath this) of
        Inl err \<Rightarrow> refresh_catch err this
      | Inr content \<Rightarrow>
          (case ini_parse e content of
             Inl err \<Rightarrow> refresh_catch err this
           | Inr parsed \<Rightarrow>
               (case rebuild [] parsed of
                  Normal c \<Rightarrow> Normal (this\<lparr>config := c\<rparr>)
                | Abrupt err c \<Rightarrow> refresh_catch err (this\<lparr>config := c\<rparr>)
                | Lost \<Rightarrow> Lost)))"

text \<open>
  The constructor. It reads the file system and never writes it; the file system is handed
  back to make that visible.
\<close>

definition new_HazoConfig ::
  "env \<Rightarrow> filesystem \<Rightarrow> string \<Rightarrow> (config_error, HazoConfig) run \<times> filesystem" where
  "new_HazoConfig e fs path =
     (let this = \<lparr>filePath = path_resolve e path, config = []\<rparr>
      in if \<not> existsSync fs (filePath this)
         then (Abrupt (ConfigError FILE_NOT_FOUND None) this, fs)
         else (refresh e fs this, fs))"

section \<open>What refresh is to build, in the words of the specification\<close>

text \<open>The string form of a leaf, where it has one.\<close>

definition string_form :: "jsval \<Rightarrow> string option" where
  "string_form v = (case js_String v of Inr s \<Rightarrow> Some s | Inl err \<Rightarrow> None)"

text \<open>
  The store named by the specification: keep the top-level entries that are objects, drop
  the others, and give every leaf of a kept entry its string form.
\<close>

definition sections_in_words :: "(string \<times> jsval) list \<Rightarrow> store" where
  "sections_in_words parsed =
     map (\<lambda>(section, vals). (section, map (\<lambda>(key, v). (key, the (string_form v))) (entries vals)))
       (filter (\<lambda>(section, vals). is_object vals) parsed)"

text \<open>
  The own keys of an object are pairwise different; \<^verbatim>\<open>ini.parse\<close> moreover skips the
  name \<^verbatim>\<open>__proto__\<close>.
\<close>

definition own_keys_ok :: "(string \<times> 'a) list \<Rightarrow> bool" where
  "own_keys_ok es = (distinct (map fst es) \<and> ''__proto__'' \<notin> set (map fst es))"

text \<open>A parsed structure all of whose leaves, in the entries that are objects, have a string form.\<close>

definition rebuildable :: "(string \<times> jsval) list \<Rightarrow> bool" where
  "rebuildable parsed =
     (own_keys_ok parsed \<and>
      (\<forall>(section, vals) \<in> set parsed.
         is_object vals \<longrightarrow>
           own_keys_ok (entries vals) \<and>
           (\<forall>(key, v) \<in> set (entries vals). string_form v \<noteq> None)))"

text \<open>
  The structure that the codec's \<^verbatim>\<open>parse\<close> hands back for the text of a store: one object
  per section, with the values as strings. Whether the codec builds its objects with or
  without a prototype is left open.
\<close>

definition as_parsed :: "bool \<Rightarrow> store \<Rightarrow> (string \<times> jsval) list" where
  "as_parsed pl c =
     map (\<lambda>(section, vals). (section, JObject pl (map (\<lambda>(key, v). (key, JString v)) vals))) c"

section \<open>The ini codec at the texts of the round trip\<close>

definition line_feed :: char where
  "line_feed = CHR 0x0A"

definition double_quote :: char where
  "double_quote = CHR 0x22"

text \<open>The file before the change: the header \<^verbatim>\<open>[A]\<close> and the line \<^verbatim>\<open>x = 1\<close>.\<close>

definition text_on_disk :: string where
  "text_on_disk = ''[A]'' @ [line_feed] @ ''x = 1'' @ [line_feed]"

text \<open>
  What \<^verbatim>\<open>ini.stringify\<close> writes for the store \<^verbatim>\<open>{A: {x: "1", y: "2"}}\<close> under the options of
  \<^verbatim>\<open>save\<close>: the section name is prefixed to \<^verbatim>\<open>[.A\<close>, and a name that starts with a bracket is
  written in double quotes.
\<close>

definition text_saved :: string where
  "text_saved =
     ''['' @ [double_quote] @ ''[.A'' @ [double_quote] @ '']'' @ [line_feed]
     @ ''x = 1'' @ [line_feed] @ ''y = 2'' @ [line_feed]"

text \<open>
  The codec on these texts. \<^verbatim>\<open>ini.parse\<close> reads the quoted header as the name \<^verbatim>\<open>[.A\<close> and
  splits it at the dot into a section \<^verbatim>\<open>[\<close> that holds the object \<^verbatim>\<open>A\<close>. Version 4 of the
  codec builds its objects without a prototype (\<open>pl = False\<close>), version 1 with one.
\<close>

definition ini_scenario :: "bool \<Rightarrow> env" where
  "ini_scenario pl =
     \<lparr>path_resolve = (\<lambda>p. ''/app/'' @ p),
      ini_parse =
        (\<lambda>t. if t = text_on_disk then Inr [(''A'', JObject pl [(''x'', JString ''1'')])]
             else if t = text_saved
             then Inr [(''['', JObject pl
                           [(''A'', JObject pl [(''x'', JString ''1''), (''y'', JString ''2'')])])]
             else Inr []),
      ini_stringify =
        (\<lambda>c opts. if c = [(''A'', [(''x'', ''1''), (''y'', ''2'')])]
                      \<and> opts = \<lparr>section_option = ''['', whitespace_option = True\<rparr>
                   then Inr text_saved else Inl (JsError None))\<rparr>"

section \<open>The same accessors on objects held by reference\<close>

text \<open>
  Whether an accessor hands out the provider's own objects shows only when objects have an
  identity. Here \<^verbatim>\<open>this.config\<close> is a reference to an object whose entries are references to
  the section objects; a section object has strings as values. Objects are created at the
  next unused address. \<^verbatim>\<open>get\<close>, \<^verbatim>\<open>getSection\<close> and \<^verbatim>\<open>getAllSections\<close> read the same in
  \<^verbatim>\<open>HazoConfig\<close> and in \<^verbatim>\<open>MockConfigProvider\<close>, so one transcription serves both.
\<close>

type_synonym addr = nat

record heap =
  tops :: "addr \<Rightarrow> addr obj"
  sects :: "addr \<Rightarrow> string obj"
  top_next :: addr
  sect_next :: addr

definition new_top :: "heap \<Rightarrow> addr \<times> heap" where
  "new_top h = (top_next h, h\<lparr>tops := (tops h)(top_next h := []), top_next := Suc (top_next h)\<rparr>)"

definition new_sect :: "heap \<Rightarrow> string obj \<Rightarrow> addr \<times> heap" where
  "new_sect h ob =
     (sect_next h, h\<lparr>sects := (sects h)(sect_next h := ob), sect_next := Suc (sect_next h)\<rparr>)"

text \<open>\<^verbatim>\<open>this.config[section]?.[key]\<close>, with \<^verbatim>\<open>this.config\<close> the object at \<open>root\<close>.\<close>

definition get_at :: "heap \<Rightarrow> addr \<Rightarrow> string \<Rightarrow> string \<Rightarrow> got" where
  "get_at h root section key =
     (case prop_read (tops h root) section of
        Own a \<Rightarrow>
          (case prop_read (sects h a) key of
             Own v \<Rightarrow> Str v
           | Inherited m \<Rightarrow> Builtin m
           | Absent \<Rightarrow> Undefined)
      | Inherited m \<Rightarrow> if m = ''__proto__'' then prototype_member key else function_member m key
      | Absent \<Rightarrow> Undefined)"

text \<open>
  \<^verbatim>\<open>this.config[section] ? { ...this.config[section] } : undefined\<close>: the spread creates an
  object.
\<close>

definition getSection_at :: "heap \<Rightarrow> addr \<Rightarrow> string \<Rightarrow> addr option \<times> heap" where
  "getSection_at h root section =
     (case prop_read (tops h root) section of
        Own a \<Rightarrow> (let (r, h') = new_sect h (spread (sects h a)) in (Some r, h'))
      | Inherited m \<Rightarrow> (let (r, h') = new_sect h [] in (Some r, h'))
      | Absent \<Rightarrow> (None, h))"

text \<open>
  The loop of \<^verbatim>\<open>getAllSections\<close> over the entries of \<^verbatim>\<open>this.config\<close>, filling the object at
  \<open>t\<close>: \<^verbatim>\<open>result[section] = { ...values }\<close>. Where the assignment re-links the prototype of
  \<^verbatim>\<open>result\<close>, its entries stay as they are and the loop goes on.
\<close>

fun copy_sections_at :: "heap \<Rightarrow> addr \<Rightarrow> (string \<times> addr) list \<Rightarrow> heap" where
  "copy_sections_at h t [] = h"
| "copy_sections_at h t ((section, a) # rest) =
     (let (a', h1) = new_sect h (spread (sects h a))
      in case assign_object (tops h1 t) section a' of
           Tracked ob \<Rightarrow> copy_sections_at (h1\<lparr>tops := (tops h1)(t := ob)\<rparr>) t rest
         | Untracked \<Rightarrow> copy_sections_at h1 t rest)"

definition getAllSections_at :: "heap \<Rightarrow> addr \<Rightarrow> addr \<times> heap" where
  "getAllSections_at h root =
     (let (t, h0) = new_top h in (t, copy_sections_at h0 t (tops h root)))"

text \<open>The entries of the object at \<open>t\<close>, with the section objects in place of their addresses.\<close>

definition contents :: "heap \<Rightarrow> addr \<Rightarrow> store" where
  "contents h t = map (\<lambda>(section, a). (section, sects h a)) (tops h t)"

text \<open>What a caller sees of the object that \<^verbatim>\<open>getSection\<close> and \<^verbatim>\<open>getAllSections\<close> return.\<close>

definition section_answer :: "heap \<Rightarrow> addr \<Rightarrow> string \<Rightarrow> sect option" where
  "section_answer h root section =
     (case getSection_at h root section of
        (Some a, h') \<Rightarrow> Some (sects h' a)
      | (None, h') \<Rightarrow> None)"

definition all_answer :: "heap \<Rightarrow> addr \<Rightarrow> store" where
  "all_answer h root = (case getAllSections_at h root of (t, h') \<Rightarrow> contents h' t)"

text \<open>Two heaps on which every accessor of the provider at \<open>root\<close> answers the same.\<close>

definition same_answers :: "heap \<Rightarrow> heap \<Rightarrow> addr \<Rightarrow> bool" where
  "same_answers h2 h root =
     ((\<forall>section key. get_at h2 root section key = get_at h root section key)
      \<and> (\<forall>section. section_answer h2 root section = section_answer h root section)
      \<and> all_answer h2 root = all_answer h root)"

text \<open>The provider's objects lie below the allocation marks.\<close>

definition allocated :: "heap \<Rightarrow> addr \<Rightarrow> bool" where
  "allocated h root = (root < top_next h \<and> (\<forall>(section, a) \<in> set (tops h root). a < sect_next h))"

text \<open>
  \<open>h2\<close> comes from \<open>h1\<close> by writes to objects that did not exist in \<open>h\<close>: below the marks of
  \<open>h\<close> the two agree, and the marks have not gone back.
\<close>

definition writes_above :: "heap \<Rightarrow> heap \<Rightarrow> heap \<Rightarrow> bool" where
  "writes_above h h1 h2 =
     ((\<forall>t < top_next h. tops h2 t = tops h1 t)
      \<and> (\<forall>a < sect_next h. sects h2 a = sects h1 a)
      \<and> top_next h \<le> top_next h2 \<and> sect_next h \<le> sect_next h2)"

text \<open>
  The entries of the object that the loop of \<^verbatim>\<open>getAllSections\<close> fills, as a function of the
  entries it walks.
\<close>

fun pure_copy :: "store \<Rightarrow> store \<Rightarrow> store" where
  "pure_copy r [] = r"
| "pure_copy r ((section, vals) # rest) =
     (case assign_object r section (spread vals) of
        Tracked r' \<Rightarrow> pure_copy r' rest
      | Untracked \<Rightarrow> pure_copy r rest)"

section \<open>Entry lists\<close>

lemma map_of_put: "map_of (put ob name v) = (map_of ob)(name \<mapsto> v)"
  by (induction ob) (auto simp: fun_eq_iff)

lemma prop_read_put_same: "prop_read (put ob name v) name = Own v"
  by (simp add: prop_read_def map_of_put)

lemma prop_read_put_other: "n \<noteq> name \<Longrightarrow> prop_read (put ob name v) n = prop_read ob n"
  by (simp add: prop_read_def map_of_put)

lemma put_put_same: "put (put ob name v) name w = put ob name w"
  by (induction ob) auto

lemma proto_in_names: "''__proto__'' \<in> set object_prototype_names"
  by (simp add: object_prototype_names_def)

lemma put_absent: "map_of ob name = None \<Longrightarrow> put ob name v = ob @ [(name, v)]"
  by (induction ob) (auto split: if_splits)

lemma fold_put_fresh:
  "distinct (map fst ob) \<Longrightarrow> fst ` set ob \<inter> fst ` set acc = {} \<Longrightarrow>
   fold (\<lambda>(n, v) acc. put acc n v) ob acc = acc @ ob"
proof (induction ob arbitrary: acc)
  case Nil
  then show ?case by simp
next
  case (Cons nv ob)
  obtain n v where nv: "nv = (n, v)" by (cases nv)
  from Cons.prems nv have "map_of acc n = None" by (auto simp: map_of_eq_None_iff)
  then have p: "put acc n v = acc @ [(n, v)]" by (rule put_absent)
  have "fold (\<lambda>(n, v) acc. put acc n v) ob (acc @ [(n, v)]) = (acc @ [(n, v)]) @ ob"
    using Cons.prems nv by (intro Cons.IH) auto
  with p nv show ?case by simp
qed

lemma spread_distinct: "distinct (map fst ob) \<Longrightarrow> spread ob = ob"
  using fold_put_fresh [of ob "[]"] by (simp add: spread_def)

section \<open>Reads after writes\<close>

text \<open>
  A write followed by a read of the same section and key gives the written value back, as
  long as the section name does not read a member of \<^verbatim>\<open>Object.prototype\<close> and the key is
  not a \<^verbatim>\<open>__proto__\<close> that the section lacks as an own entry.
\<close>

lemma write_then_read:
  assumes "prop_read c section \<noteq> Inherited section"
    and "key \<noteq> ''__proto__'' \<or> (\<exists>sec w. map_of c section = Some sec \<and> map_of sec key = Some w)"
  shows "\<exists>c'. write_value c section key v = Tracked c' \<and> read_value c' section key = Str v"
proof (cases "map_of c section")
  case None
  with assms(1) have ab: "prop_read c section = Absent" and np: "section \<noteq> ''__proto__''"
    using proto_in_names by (auto simp: prop_read_def split: if_splits)
  from None assms(2) have k: "key \<noteq> ''__proto__''" by auto
  from ab np None k show ?thesis
    using prop_read_put_same [of "[]" key v]
    by (simp add: write_value_def assign_object_def prop_read_put_same read_value_def
        assign_string_def put_put_same)
next
  case (Some sec)
  then have ow: "prop_read c section = Own sec" by (simp add: prop_read_def)
  from assms(2) Some have "map_of sec key = None \<and> key = ''__proto__'' \<Longrightarrow> False" by auto
  then have "assign_string sec key v = put sec key v" by (auto simp: assign_string_def)
  with ow show ?thesis
    by (simp add: write_value_def prop_read_put_same read_value_def)
qed

text \<open>
  C5. Read-your-writes, for both providers: \<^verbatim>\<open>set(s, k, v)\<close> followed by \<^verbatim>\<open>get(s, k)\<close>
  returns \<^verbatim>\<open>v\<close>, for every section and key. The code misses the key \<^verbatim>\<open>__proto__\<close>: on an empty
  provider of either kind, \<^verbatim>\<open>set("A", "__proto__", "v")\<close> creates the section \<^verbatim>\<open>A\<close> and stores
  nothing in it, and \<^verbatim>\<open>get("A", "__proto__")\<close> then answers with \<^verbatim>\<open>Object.prototype\<close>, not
  with \<^verbatim>\<open>"v"\<close>.
\<close>

theorem set_then_get_proto_key:
  "set_value \<lparr>filePath = ''/app/config.ini'', config = []\<rparr> ''A'' ''__proto__'' ''v''
     = Tracked \<lparr>filePath = ''/app/config.ini'', config = [(''A'', [])]\<rparr>
   \<and> get \<lparr>filePath = ''/app/config.ini'', config = [(''A'', [])]\<rparr> ''A'' ''__proto__''
       = Builtin ''__proto__''
   \<and> mock_set \<lparr>mock_config = []\<rparr> ''A'' ''__proto__'' ''v'' = Tracked \<lparr>mock_config = [(''A'', [])]\<rparr>
   \<and> mock_get \<lparr>mock_config = [(''A'', [])]\<rparr> ''A'' ''__proto__'' = Builtin ''__proto__''
   \<and> Builtin ''__proto__'' \<noteq> Str ''v''"
  by (simp add: set_value_def mock_set_def write_value_def prop_read_def object_prototype_names_def
      assign_object_def assign_string_def get_def mock_get_def read_value_def)

section \<open>Reads of what is absent\<close>

lemma read_absent_section:
  "section \<notin> set object_prototype_names \<Longrightarrow> map_of c section = None \<Longrightarrow>
   read_value c section key = Undefined \<and> read_section c section = None"
  by (simp add: read_value_def read_section_def prop_read_def)

lemma read_absent_key:
  "map_of c section = Some sec \<Longrightarrow> key \<notin> set object_prototype_names \<Longrightarrow>
   map_of sec key = None \<Longrightarrow> read_value c section key = Undefined"
  by (simp add: read_value_def prop_read_def)

text \<open>
  A section name that reads a built-in function: a key the function does not have is
  \<^verbatim>\<open>undefined\<close>, a key it has gives that property, and its \<^verbatim>\<open>caller\<close> accessor throws.
\<close>

lemma read_value_function_members:
  "read_value [] ''toString'' ''zzz'' = Undefined
   \<and> read_value [] ''constructor'' ''name'' = BuiltinMember ''constructor'' ''name''
   \<and> read_value [] ''toString'' ''caller'' = Throws"
  by (simp add: read_value_def prop_read_def object_prototype_names_def function_member_def
      object_constructor_names_def function_prototype_names_def)

text \<open>
  C7. For both providers, \<^verbatim>\<open>get\<close> on an absent section or key returns \<^verbatim>\<open>undefined\<close>, and
  \<^verbatim>\<open>getSection\<close> on an absent section returns \<^verbatim>\<open>undefined\<close>, not an empty map. The code
  does so only for names that \<^verbatim>\<open>Object.prototype\<close> does not have: with the one section
  \<^verbatim>\<open>db = {host: "localhost"}\<close>, \<^verbatim>\<open>get("db", "constructor")\<close> returns the inherited
  \<^verbatim>\<open>constructor\<close> function, and \<^verbatim>\<open>getSection("constructor")\<close> returns an empty map.
\<close>

theorem get_inherited_name_not_undefined:
  "get \<lparr>filePath = ''/app/config.ini'', config = [(''db'', [(''host'', ''localhost'')])]\<rparr>
       ''db'' ''constructor'' = Builtin ''constructor''
   \<and> mock_get \<lparr>mock_config = [(''db'', [(''host'', ''localhost'')])]\<rparr> ''db'' ''constructor''
       = Builtin ''constructor''
   \<and> getSection \<lparr>filePath = ''/app/config.ini'', config = [(''db'', [(''host'', ''localhost'')])]\<rparr>
       ''constructor'' = Some []
   \<and> mock_getSection \<lparr>mock_config = [(''db'', [(''host'', ''localhost'')])]\<rparr> ''constructor''
       = Some []"
  by (simp add: get_def mock_get_def getSection_def mock_getSection_def read_value_def
      read_section_def prop_read_def object_prototype_names_def)

section \<open>Failures of save and refresh\<close>

lemma refresh_read_failure:
  "readFileSync fs (filePath this) = Inl err \<Longrightarrow> refresh e fs this = refresh_catch err this"
  by (simp add: refresh_def)

lemma refresh_parse_failure:
  "readFileSync fs (filePath this) = Inr t \<Longrightarrow> ini_parse e t = Inl err \<Longrightarrow>
   refresh e fs this = refresh_catch err this"
  by (simp add: refresh_def)

text \<open>The read fails with ENOENT exactly when nothing is at the path.\<close>

lemma readFileSync_ENOENT:
  "(\<exists>err. readFileSync fs path = Inl err \<and> code err = Some ''ENOENT'') \<longleftrightarrow> fs path = None"
proof (cases "fs path")
  case None
  then show ?thesis by (simp add: readFileSync_def)
next
  case (Some n)
  show ?thesis
  proof (cases n)
    case Directory
    with Some show ?thesis by (simp add: readFileSync_def)
  next
    case (Unreachable f)
    with Some show ?thesis by (cases f) (simp_all add: readFileSync_def)
  next
    case (File rflt wflt t)
    show ?thesis
    proof (cases rflt)
      case None
      with Some File show ?thesis by (simp add: readFileSync_def)
    next
      case (Some f)
      with \<open>fs path = Some n\<close> File show ?thesis
        by (cases f) (simp_all add: readFileSync_def)
    qed
  qed
qed

lemma refresh_missing_file:
  "fs (filePath this) = None \<Longrightarrow>
   refresh e fs this = Abrupt (ConfigError FILE_NOT_FOUND None) this"
  by (simp add: refresh_def readFileSync_def refresh_catch_def)

text \<open>
  A path out of reach does not exist for \<^verbatim>\<open>existsSync\<close>, and yet \<^verbatim>\<open>refresh\<close> reports it
  with the code of its catch-all.
\<close>

lemma refresh_unreachable_file:
  "fs (filePath this) = Some (Unreachable f) \<Longrightarrow>
   \<not> existsSync fs (filePath this)
   \<and> refresh e fs this = Abrupt (ConfigError PARSE_ERROR (Some (JsError (Some (errno f))))) this"
  by (cases f) (simp_all add: refresh_def readFileSync_def refresh_catch_def existsSync_def)

text \<open>
  C1. When the read of \<^verbatim>\<open>refresh\<close> fails for another reason than a missing file, the
  call is to fail with code READ_ERROR. The code has no such branch: an existing file that
  cannot be read (EACCES) makes \<^verbatim>\<open>refresh\<close> throw PARSE_ERROR, the code of its catch-all.
\<close>

theorem refresh_unreadable_file_is_parse_error:
  "refresh e (\<lambda>p. if p = ''/app/config.ini'' then Some (File (Some EACCES) None ''[A]'') else None)
     \<lparr>filePath = ''/app/config.ini'', config = c\<rparr>
   = Abrupt (ConfigError PARSE_ERROR (Some (JsError (Some ''EACCES''))))
       \<lparr>filePath = ''/app/config.ini'', config = c\<rparr>
   \<and> code_text PARSE_ERROR \<noteq> code_text READ_ERROR"
  by (simp add: refresh_def readFileSync_def refresh_catch_def)

text \<open>
  C2. When the codec has produced the text and the write of \<^verbatim>\<open>save\<close> fails, \<^verbatim>\<open>save\<close>
  throws an error with code WRITE_ERROR, and the cache is as before: \<^verbatim>\<open>get\<close>,
  \<^verbatim>\<open>getSection\<close> and \<^verbatim>\<open>getAllSections\<close> answer as they did before the call.
\<close>

theorem save_write_failure:
  assumes "ini_stringify e (config this) \<lparr>section_option = ''['', whitespace_option = True\<rparr>
             = Inr iniContent"
    and "writeFileSync fs (filePath this) iniContent = Inl err"
  shows "\<exists>this'. fst (save e fs this) = Abrupt (ConfigError WRITE_ERROR (Some err)) this'
           \<and> code_text WRITE_ERROR = ''HAZO_CONFIG_WRITE_ERROR''
           \<and> config this' = config this
           \<and> (\<forall>section key. get this' section key = get this section key)
           \<and> (\<forall>section. getSection this' section = getSection this section)
           \<and> getAllSections this' = getAllSections this"
  using assms by (simp add: save_def)

theorem save_write_failure_witness:
  "\<exists>this'. fst (save \<lparr>path_resolve = (\<lambda>p. p), ini_parse = (\<lambda>t. Inr []),
                      ini_stringify = (\<lambda>c opts. Inr ''[A]'')\<rparr>
              (\<lambda>p. if p = ''/app/config.ini'' then Some (File None (Some EROFS) ''[A]'') else None)
              \<lparr>filePath = ''/app/config.ini'', config = [(''A'', [(''x'', ''1'')])]\<rparr>)
            = Abrupt (ConfigError WRITE_ERROR (Some (JsError (Some ''EROFS'')))) this'
         \<and> config this' = [(''A'', [(''x'', ''1'')])]"
  using save_write_failure [of "\<lparr>path_resolve = (\<lambda>p. p), ini_parse = (\<lambda>t. Inr []),
      ini_stringify = (\<lambda>c opts. Inr ''[A]'')\<rparr>"
      "\<lparr>filePath = ''/app/config.ini'', config = [(''A'', [(''x'', ''1'')])]\<rparr>" "''[A]''"
      "(\<lambda>p. if p = ''/app/config.ini'' then Some (File None (Some EROFS) ''[A]'') else None)"
      "JsError (Some ''EROFS'')"]
  by (simp add: writeFileSync_def) blast

text \<open>
  A \<^verbatim>\<open>refresh\<close> that fails because the read throws or because the codec's \<^verbatim>\<open>parse\<close>
  throws leaves the instance, and with it the cache, as it was: the error is raised before
  \<^verbatim>\<open>this.config\<close> is assigned.
\<close>

lemma refresh_failure_before_rebuild:
  assumes "readFileSync fs (filePath this) = Inl err
           \<or> (\<exists>content. readFileSync fs (filePath this) = Inr content \<and> ini_parse e content = Inl err)"
  shows "\<exists>ce this'. refresh e fs this = Abrupt ce this'
           \<and> config this' = config this
           \<and> (\<forall>section key. get this' section key = get this section key)
           \<and> (\<forall>section. getSection this' section = getSection this section)
           \<and> getAllSections this' = getAllSections this"
proof -
  from assms have "refresh e fs this = refresh_catch err this"
    by (auto simp: refresh_read_failure refresh_parse_failure)
  then have "\<exists>ce. refresh e fs this = Abrupt ce this"
    by (simp add: refresh_catch_def)
  then show ?thesis by blast
qed

text \<open>An object without a prototype has no string form, whatever its entries.\<close>

lemma js_String_no_prototype: "js_String (JObject False es) = Inl TypeError"
  by simp

text \<open>
  C10. Every failing \<^verbatim>\<open>refresh\<close> leaves the cache as it was, and the rebuild loop cannot
  throw. The loop does throw, after \<^verbatim>\<open>this.config = {}\<close>: the text \<^verbatim>\<open>[a.b]\<close> followed by
  \<^verbatim>\<open>toString = x\<close> parses to a section \<^verbatim>\<open>a\<close> whose entry \<^verbatim>\<open>b\<close> is an object with an own
  \<^verbatim>\<open>toString\<close> entry; \<^verbatim>\<open>String\<close> of that object throws a TypeError, which the catch block
  rethrows as PARSE_ERROR, and the former cache is gone.
\<close>

theorem refresh_failure_in_rebuild_changes_cache:
  "refresh \<lparr>path_resolve = (\<lambda>p. p),
            ini_parse = (\<lambda>t. Inr [(''a'', JObject True
                                     [(''b'', JObject True [(''toString'', JString ''x'')])])]),
            ini_stringify = (\<lambda>c opts. Inr ''[A]'')\<rparr>
     (\<lambda>p. if p = ''/app/config.ini'' then Some (File None None ''[a.b]'') else None)
     \<lparr>filePath = ''/app/config.ini'', config = [(''old'', [(''k'', ''v'')])]\<rparr>
   = Abrupt (ConfigError PARSE_ERROR (Some TypeError))
       \<lparr>filePath = ''/app/config.ini'', config = [(''a'', [])]\<rparr>
   \<and> get \<lparr>filePath = ''/app/config.ini'', config = [(''old'', [(''k'', ''v'')])]\<rparr> ''old'' ''k'' = Str ''v''
   \<and> get \<lparr>filePath = ''/app/config.ini'', config = [(''a'', [])]\<rparr> ''old'' ''k'' = Undefined"
  by (simp add: refresh_def readFileSync_def assign_object_def refresh_catch_def TypeError_def
       get_def read_value_def prop_read_def object_prototype_names_def)

section \<open>What a successful refresh builds\<close>

lemma fill_section_all:
  assumes "distinct (map fst kvs)" and "''__proto__'' \<notin> fst ` set kvs"
    and "\<forall>(key, v) \<in> set kvs. string_form v \<noteq> None"
    and "fst ` set kvs \<inter> fst ` set sec = {}"
  shows "fill_section sec kvs = Normal (sec @ map (\<lambda>(key, v). (key, the (string_form v))) kvs)"
  using assms
proof (induction kvs arbitrary: sec)
  case Nil
  then show ?case by simp
next
  case (Cons kv kvs)
  obtain key v where kv: "kv = (key, v)" by (cases kv)
  from Cons.prems(3) kv obtain s where s: "js_String v = Inr s"
    by (cases "js_String v") (auto simp: string_form_def)
  from Cons.prems(4) kv have absent: "map_of sec key = None"
    by (auto simp: map_of_eq_None_iff)
  from Cons.prems(2) kv have "key \<noteq> ''__proto__''" by auto
  with absent have step: "assign_string sec key s = sec @ [(key, s)]"
    by (simp add: assign_string_def put_absent)
  have "fill_section (sec @ [(key, s)]) kvs
        = Normal ((sec @ [(key, s)]) @ map (\<lambda>(key, v). (key, the (string_form v))) kvs)"
  proof (rule Cons.IH)
    show "distinct (map fst kvs)" using Cons.prems(1) by simp
    show "''__proto__'' \<notin> fst ` set kvs" using Cons.prems(2) by simp
    show "\<forall>(key, v) \<in> set kvs. string_form v \<noteq> None" using Cons.prems(3) by simp
    show "fst ` set kvs \<inter> fst ` set (sec @ [(key, s)]) = {}"
      using Cons.prems(1,4) kv by auto
  qed
  with s step kv show ?case by (simp add: string_form_def)
qed

lemma rebuild_all:
  assumes "rebuildable parsed" and "fst ` set parsed \<inter> fst ` set c = {}"
  shows "rebuild c parsed = Normal (c @ sections_in_words parsed)"
  using assms
proof (induction parsed arbitrary: c)
  case Nil
  then show ?case by (simp add: sections_in_words_def)
next
  case (Cons sv parsed)
  obtain sname vals where sv: "sv = (sname, vals)" by (cases sv)
  from Cons.prems(1) have rest: "rebuildable parsed"
    by (auto simp: rebuildable_def own_keys_ok_def)
  show ?case
  proof (cases "is_object vals")
    case False
    have "rebuild c parsed = Normal (c @ sections_in_words parsed)"
      using rest Cons.prems(2) by (intro Cons.IH) auto
    with False sv show ?thesis by (simp add: sections_in_words_def)
  next
    case True
    from Cons.prems(1) sv have np: "sname \<noteq> ''__proto__''"
      by (auto simp: rebuildable_def own_keys_ok_def)
    from Cons.prems(2) sv have absent: "map_of c sname = None"
      by (auto simp: map_of_eq_None_iff)
    from Cons.prems(1) sv True have ok: "own_keys_ok (entries vals)"
      and leaves: "\<forall>(key, v) \<in> set (entries vals). string_form v \<noteq> None"
      by (auto simp: rebuildable_def)
    have fill: "fill_section [] (entries vals)
                = Normal ([] @ map (\<lambda>(key, v). (key, the (string_form v))) (entries vals))"
      using ok leaves by (intro fill_section_all) (auto simp: own_keys_ok_def)
    let ?sec = "map (\<lambda>(key, v). (key, the (string_form v))) (entries vals)"
    have put2: "put (put c sname []) sname ?sec = c @ [(sname, ?sec)]"
    proof -
      have "put (put c sname []) sname ?sec = put c sname ?sec" by (rule put_put_same)
      also have "\<dots> = c @ [(sname, ?sec)]" using absent by (rule put_absent)
      finally show ?thesis .
    qed
    have "rebuild (c @ [(sname, ?sec)]) parsed
          = Normal ((c @ [(sname, ?sec)]) @ sections_in_words parsed)"
    proof (rule Cons.IH [OF rest])
      show "fst ` set parsed \<inter> fst ` set (c @ [(sname, ?sec)]) = {}"
        using Cons.prems sv by (auto simp: rebuildable_def own_keys_ok_def)
    qed
    with True sv np fill put2 show ?thesis
      by (simp add: assign_object_def sections_in_words_def)
  qed
qed

lemma refresh_of_rebuildable:
  assumes "readFileSync fs (filePath this) = Inr content"
    and "ini_parse e content = Inr parsed"
    and "rebuildable parsed"
  shows "refresh e fs this = Normal (this\<lparr>config := sections_in_words parsed\<rparr>)"
  using assms rebuild_all [of parsed "[]"] by (simp add: refresh_def)

text \<open>
  So when no name in the parsed structure is \<^verbatim>\<open>__proto__\<close> and every leaf of an entry that
  is an object has a string form, the cache holds exactly the top-level entries that are
  objects, each leaf as its string, and nothing of the previous cache. An example with a
  top-level scalar, a section with a number and a boolean, and an array:
\<close>

lemma refresh_builds_sections_example:
  "refresh \<lparr>path_resolve = (\<lambda>p. p),
            ini_parse = (\<lambda>t. Inr [(''top'', JString ''q''),
                                   (''A'', JObject False [(''x'', JNumber 5), (''on'', JBool True)]),
                                   (''list'', JArray [JString ''u'', JNull])]),
            ini_stringify = (\<lambda>c opts. Inr ''[A]'')\<rparr>
     (\<lambda>p. if p = ''/app/config.ini'' then Some (File None None ''[A]'') else None)
     \<lparr>filePath = ''/app/config.ini'', config = [(''old'', [(''k'', ''v'')])]\<rparr>
   = Normal \<lparr>filePath = ''/app/config.ini'',
             config = [(''A'', [(''x'', ''5''), (''on'', ''true'')]),
                       (''list'', [(''0'', ''u''), (''1'', ''null'')])]\<rparr>"
  using refresh_of_rebuildable [of
      "(\<lambda>p. if p = ''/app/config.ini'' then Some (File None None ''[A]'') else None)"
      "\<lparr>filePath = ''/app/config.ini'', config = [(''old'', [(''k'', ''v'')])]\<rparr>"
      "''[A]''"
      "\<lparr>path_resolve = (\<lambda>p. p),
            ini_parse = (\<lambda>t. Inr [(''top'', JString ''q''),
                                   (''A'', JObject False [(''x'', JNumber 5), (''on'', JBool True)]),
                                   (''list'', JArray [JString ''u'', JNull])]),
            ini_stringify = (\<lambda>c opts. Inr ''[A]'')\<rparr>"
      "[(''top'', JString ''q''),
        (''A'', JObject False [(''x'', JNumber 5), (''on'', JBool True)]),
        (''list'', JArray [JString ''u'', JNull])]"]
  by (simp add: readFileSync_def rebuildable_def own_keys_ok_def string_form_def
      sections_in_words_def decimal.simps digit_def upt_rec)

text \<open>
  C3. With a file read and parsed, \<^verbatim>\<open>refresh\<close> keeps the top-level entries that are nested
  mappings and coerces every leaf of a kept section to its string form. The code fails to
  do so where a leaf is itself an object that \<^verbatim>\<open>String\<close> cannot convert. The text
  \<^verbatim>\<open>[a.b]\<close>, \<^verbatim>\<open>toString = x\<close>, \<^verbatim>\<open>[c.d]\<close>, \<^verbatim>\<open>k = 1\<close> parses to two top-level entries that are
  nested mappings; at the leaf \<^verbatim>\<open>b\<close> of \<^verbatim>\<open>a\<close> the conversion throws, so \<^verbatim>\<open>refresh\<close> throws:
  section \<^verbatim>\<open>a\<close> is left empty and the entry \<^verbatim>\<open>c\<close> is not kept.
\<close>

theorem refresh_leaf_without_string_form:
  "refresh \<lparr>path_resolve = (\<lambda>p. p),
            ini_parse = (\<lambda>t. Inr [(''a'', JObject True [(''b'', JObject True [(''toString'', JString ''x'')])]),
                                   (''c'', JObject True [(''d'', JObject True [(''k'', JString ''1'')])])]),
            ini_stringify = (\<lambda>c opts. Inr ''[A]'')\<rparr>
     (\<lambda>p. if p = ''/app/config.ini'' then Some (File None None ''[a.b]'') else None)
     \<lparr>filePath = ''/app/config.ini'', config = []\<rparr>
   = Abrupt (ConfigError PARSE_ERROR (Some TypeError))
       \<lparr>filePath = ''/app/config.ini'', config = [(''a'', [])]\<rparr>
   \<and> get \<lparr>filePath = ''/app/config.ini'', config = [(''a'', [])]\<rparr> ''a'' ''b'' = Undefined
   \<and> getSection \<lparr>filePath = ''/app/config.ini'', config = [(''a'', [])]\<rparr> ''c'' = None"
  by (simp add: refresh_def readFileSync_def assign_object_def refresh_catch_def TypeError_def
       get_def getSection_def read_value_def read_section_def prop_read_def
       object_prototype_names_def)

section \<open>Set, save, construct anew\<close>

text \<open>
  With a codec that parses the text of the saved cache back to that cache, the round trip
  through \<^verbatim>\<open>set\<close>, \<^verbatim>\<open>save\<close> and a fresh provider gives \<^verbatim>\<open>{A: {x: "1", y: "2"}}\<close>.
\<close>

lemma round_trip_with_inverse_codec:
  assumes present: "fs (path_resolve e path) = Some (File None None t0)"
    and parse0: "ini_parse e t0 = Inr (as_parsed pl0 [(''A'', [(''x'', ''1'')])])"
    and text1: "ini_stringify e [(''A'', [(''x'', ''1''), (''y'', ''2'')])]
                  \<lparr>section_option = ''['', whitespace_option = True\<rparr> = Inr t1"
    and inverse: "ini_parse e t1 = Inr (as_parsed pl1 [(''A'', [(''x'', ''1''), (''y'', ''2'')])])"
  shows "\<exists>p0 p1 fs1 p2.
           new_HazoConfig e fs path = (Normal p0, fs)
         \<and> set_value p0 ''A'' ''y'' ''2'' = Tracked p1
         \<and> save e fs p1 = (Normal p1, fs1)
         \<and> new_HazoConfig e fs1 path = (Normal p2, fs1)
         \<and> getAllSections p2 = Tracked [(''A'', [(''x'', ''1''), (''y'', ''2'')])]"
proof -
  let ?fp = "path_resolve e path"
  let ?p0 = "\<lparr>filePath = ?fp, config = [(''A'', [(''x'', ''1'')])]\<rparr>"
  let ?p1 = "\<lparr>filePath = ?fp, config = [(''A'', [(''x'', ''1''), (''y'', ''2'')])]\<rparr>"
  let ?fs1 = "fs(?fp \<mapsto> File None None t1)"
  have c0: "new_HazoConfig e fs path = (Normal ?p0, fs)"
    using present parse0
    by (simp add: new_HazoConfig_def existsSync_def refresh_def readFileSync_def as_parsed_def
        assign_object_def assign_string_def)
  have s: "set_value ?p0 ''A'' ''y'' ''2'' = Tracked ?p1"
    by (simp add: set_value_def write_value_def prop_read_def assign_string_def)
  have sv: "save e fs ?p1 = (Normal ?p1, ?fs1)"
    using present text1 by (simp add: save_def writeFileSync_def)
  have c2: "new_HazoConfig e ?fs1 path = (Normal ?p1, ?fs1)"
    using inverse
    by (simp add: new_HazoConfig_def existsSync_def refresh_def readFileSync_def as_parsed_def
        assign_object_def assign_string_def)
  have g: "getAllSections ?p1 = Tracked [(''A'', [(''x'', ''1''), (''y'', ''2'')])]"
    by (simp add: getAllSections_def assign_object_def spread_def)
  from c0 s sv c2 g show ?thesis by blast
qed

text \<open>
  C4. The file holds the one section \<^verbatim>\<open>A = {x: "1"}\<close>. After \<^verbatim>\<open>set("A", "y", "2")\<close> and
  \<^verbatim>\<open>save()\<close>, a fresh provider over the same path is to have
  \<^verbatim>\<open>getAllSections() = {A: {x: "1", y: "2"}}\<close>. The code does not get there, because \<^verbatim>\<open>save\<close>
  hands the option \<^verbatim>\<open>section: '['\<close> to the codec, which takes it for a prefix of the section
  names: the file then starts with a header for the name \<^verbatim>\<open>[.A\<close>, and the codec reads it back
  as a section \<^verbatim>\<open>[\<close> holding an object \<^verbatim>\<open>A\<close>. With version 4 of the codec the fresh constructor
  throws PARSE_ERROR; with version 1 it returns a provider whose only section is \<^verbatim>\<open>[\<close>.
\<close>

theorem round_trip_reload_fails:
  "new_HazoConfig (ini_scenario False)
      (\<lambda>p. if p = ''/app/config.ini'' then Some (File None None text_on_disk) else None)
      ''config.ini''
     = (Normal \<lparr>filePath = ''/app/config.ini'', config = [(''A'', [(''x'', ''1'')])]\<rparr>,
        (\<lambda>p. if p = ''/app/config.ini'' then Some (File None None text_on_disk) else None))
   \<and> set_value \<lparr>filePath = ''/app/config.ini'', config = [(''A'', [(''x'', ''1'')])]\<rparr> ''A'' ''y'' ''2''
     = Tracked \<lparr>filePath = ''/app/config.ini'', config = [(''A'', [(''x'', ''1''), (''y'', ''2'')])]\<rparr>
   \<and> save (ini_scenario False)
      (\<lambda>p. if p = ''/app/config.ini'' then Some (File None None text_on_disk) else None)
      \<lparr>filePath = ''/app/config.ini'', config = [(''A'', [(''x'', ''1''), (''y'', ''2'')])]\<rparr>
     = (Normal \<lparr>filePath = ''/app/config.ini'', config = [(''A'', [(''x'', ''1''), (''y'', ''2'')])]\<rparr>,
        (\<lambda>p. if p = ''/app/config.ini'' then Some (File None None text_saved) else None))
   \<and> new_HazoConfig (ini_scenario False)
      (\<lambda>p. if p = ''/app/config.ini'' then Some (File None None text_saved) else None)
      ''config.ini''
     = (Abrupt (ConfigError PARSE_ERROR (Some TypeError))
          \<lparr>filePath = ''/app/config.ini'', config = [(''['', [])]\<rparr>,
        (\<lambda>p. if p = ''/app/config.ini'' then Some (File None None text_saved) else None))
   \<and> new_HazoConfig (ini_scenario True)
      (\<lambda>p. if p = ''/app/config.ini'' then Some (File None None text_saved) else None)
      ''config.ini''
     = (Normal \<lparr>filePath = ''/app/config.ini'', config = [(''['', [(''A'', ''[object Object]'')])]\<rparr>,
        (\<lambda>p. if p = ''/app/config.ini'' then Some (File None None text_saved) else None))
   \<and> getAllSections \<lparr>filePath = ''/app/config.ini'', config = [(''['', [(''A'', ''[object Object]'')])]\<rparr>
     = Tracked [(''['', [(''A'', ''[object Object]'')])]"
proof -
  have differ: "text_saved \<noteq> text_on_disk"
    by (simp add: text_saved_def text_on_disk_def)
  show ?thesis
    using differ
    by (simp add: new_HazoConfig_def ini_scenario_def existsSync_def refresh_def readFileSync_def
        assign_object_def assign_string_def refresh_catch_def TypeError_def
        set_value_def write_value_def prop_read_def object_prototype_names_def
        save_def writeFileSync_def getAllSections_def spread_def fun_eq_iff)
qed

section \<open>The constructor\<close>

text \<open>
  C6. Over a resolved path that does not exist, the constructor throws an error with code
  FILE_NOT_FOUND and the file is not created. Over an existing path the constructor is the
  initial \<^verbatim>\<open>refresh\<close> of an instance with an empty cache, so that the cache holds the
  sections of the file when the constructor returns.
\<close>

theorem constructor_checks_then_refreshes:
  "(\<not> existsSync fs (path_resolve e path) \<longrightarrow>
      (\<exists>this. new_HazoConfig e fs path = (Abrupt (ConfigError FILE_NOT_FOUND None) this, fs))
      \<and> code_text FILE_NOT_FOUND = ''HAZO_CONFIG_FILE_NOT_FOUND''
      \<and> \<not> existsSync (snd (new_HazoConfig e fs path)) (path_resolve e path))
   \<and> (existsSync fs (path_resolve e path) \<longrightarrow>
      new_HazoConfig e fs path
        = (refresh e fs \<lparr>filePath = path_resolve e path, config = []\<rparr>, fs)
      \<and> (\<forall>content parsed.
            readFileSync fs (path_resolve e path) = Inr content \<and> ini_parse e content = Inr parsed
            \<and> rebuildable parsed \<longrightarrow>
            new_HazoConfig e fs path
              = (Normal \<lparr>filePath = path_resolve e path, config = sections_in_words parsed\<rparr>, fs)))"
proof (intro conjI impI allI)
  assume "\<not> existsSync fs (path_resolve e path)"
  then show "\<exists>this. new_HazoConfig e fs path = (Abrupt (ConfigError FILE_NOT_FOUND None) this, fs)"
    and "\<not> existsSync (snd (new_HazoConfig e fs path)) (path_resolve e path)"
    by (simp_all add: new_HazoConfig_def)
next
  show "code_text FILE_NOT_FOUND = ''HAZO_CONFIG_FILE_NOT_FOUND''" by simp
next
  assume ex: "existsSync fs (path_resolve e path)"
  then show r: "new_HazoConfig e fs path
        = (refresh e fs \<lparr>filePath = path_resolve e path, config = []\<rparr>, fs)"
    by (simp add: new_HazoConfig_def)
  fix content parsed
  assume "readFileSync fs (path_resolve e path) = Inr content \<and> ini_parse e content = Inr parsed
            \<and> rebuildable parsed"
  then show "new_HazoConfig e fs path
              = (Normal \<lparr>filePath = path_resolve e path, config = sections_in_words parsed\<rparr>, fs)"
    using r refresh_of_rebuildable [of fs "\<lparr>filePath = path_resolve e path, config = []\<rparr>" content e parsed]
    by simp
qed

theorem constructor_checks_then_refreshes_witness:
  "(\<exists>this. new_HazoConfig
       \<lparr>path_resolve = (\<lambda>p. ''/app/'' @ p), ini_parse = (\<lambda>t. Inr [(''A'', JObject False [(''x'', JString ''1'')])]),
        ini_stringify = (\<lambda>c opts. Inr ''[A]'')\<rparr>
       (\<lambda>p. None) ''config.ini''
     = (Abrupt (ConfigError FILE_NOT_FOUND None) this, (\<lambda>p. None)))
   \<and> new_HazoConfig
       \<lparr>path_resolve = (\<lambda>p. ''/app/'' @ p), ini_parse = (\<lambda>t. Inr [(''A'', JObject False [(''x'', JString ''1'')])]),
        ini_stringify = (\<lambda>c opts. Inr ''[A]'')\<rparr>
       (\<lambda>p. if p = ''/app/config.ini'' then Some (File None None ''[A]'') else None) ''config.ini''
     = (Normal \<lparr>filePath = ''/app/config.ini'', config = [(''A'', [(''x'', ''1'')])]\<rparr>,
        (\<lambda>p. if p = ''/app/config.ini'' then Some (File None None ''[A]'') else None))"
proof -
  let ?e = "\<lparr>path_resolve = (\<lambda>p. ''/app/'' @ p), ini_parse = (\<lambda>t. Inr [(''A'', JObject False [(''x'', JString ''1'')])]),
        ini_stringify = (\<lambda>c opts. Inr ''[A]'')\<rparr>"
  let ?fs = "(\<lambda>p. if p = ''/app/config.ini'' then Some (File None None ''[A]'') else None)"
  have absent: "\<not> existsSync (\<lambda>p. None) (path_resolve ?e ''config.ini'')"
    by (simp add: existsSync_def)
  have present: "existsSync ?fs (path_resolve ?e ''config.ini'')"
    by (simp add: existsSync_def)
  have ok: "readFileSync ?fs (path_resolve ?e ''config.ini'') = Inr ''[A]''
      \<and> ini_parse ?e ''[A]'' = Inr [(''A'', JObject False [(''x'', JString ''1'')])]
      \<and> rebuildable [(''A'', JObject False [(''x'', JString ''1'')])]"
    by (simp add: readFileSync_def rebuildable_def own_keys_ok_def string_form_def)
  from absent constructor_checks_then_refreshes [of "\<lambda>p. None" ?e "''config.ini''"]
  have a: "\<exists>this. new_HazoConfig ?e (\<lambda>p. None) ''config.ini''
             = (Abrupt (ConfigError FILE_NOT_FOUND None) this, (\<lambda>p. None))"
    by blast
  from present ok constructor_checks_then_refreshes [of ?fs ?e "''config.ini''"]
  have "new_HazoConfig ?e ?fs ''config.ini''
          = (Normal \<lparr>filePath = path_resolve ?e ''config.ini'',
                config = sections_in_words [(''A'', JObject False [(''x'', JString ''1'')])]\<rparr>, ?fs)"
    by blast
  then have b: "new_HazoConfig ?e ?fs ''config.ini''
          = (Normal \<lparr>filePath = ''/app/config.ini'', config = [(''A'', [(''x'', ''1'')])]\<rparr>, ?fs)"
    by (simp add: sections_in_words_def string_form_def)
  from a b show ?thesis by blast
qed

section \<open>Reset of the in-memory provider\<close>

lemma json_copy_distinct:
  assumes "distinct (map fst d)" and "\<forall>(section, vals) \<in> set d. distinct (map fst vals)"
  shows "json_copy d = d"
proof -
  from assms(2) have "map (\<lambda>(section, vals). (section, spread vals)) d = d"
    by (induction d) (auto simp: spread_distinct)
  with assms(1) show ?thesis by (simp add: json_copy_def spread_distinct)
qed

lemma reset_empties:
  "mock_config (reset this None) = []
   \<and> mock_getAllSections (reset this None) = Tracked []
   \<and> (section \<notin> set object_prototype_names \<longrightarrow> mock_get (reset this None) section key = Undefined)
   \<and> (section \<notin> set object_prototype_names \<longrightarrow> mock_getSection (reset this None) section = None)"
  by (simp add: reset_def mock_getAllSections_def mock_get_def mock_getSection_def read_absent_section)

lemma reset_replaces:
  assumes "distinct (map fst d)" and "\<forall>(section, vals) \<in> set d. distinct (map fst vals)"
  shows "mock_config (reset this (Some d)) = d"
  using assms by (simp add: reset_def json_copy_distinct)

text \<open>
  C9. \<^verbatim>\<open>reset()\<close> empties the store: \<^verbatim>\<open>getAllSections\<close> returns an empty map and every
  \<^verbatim>\<open>get\<close> returns not-found; \<^verbatim>\<open>reset(data)\<close> replaces the store by a copy of \<^verbatim>\<open>data\<close>.
  The store is empty after \<^verbatim>\<open>reset()\<close>, and yet \<^verbatim>\<open>get("__proto__", "toString")\<close> answers
  with the \<^verbatim>\<open>toString\<close> function of \<^verbatim>\<open>Object.prototype\<close>.
\<close>

theorem reset_then_get_prototype:
  "mock_config (reset this None) = []
   \<and> mock_getAllSections (reset this None) = Tracked []
   \<and> mock_get (reset this None) ''__proto__'' ''toString'' = Builtin ''toString''"
  by (simp add: reset_def mock_getAllSections_def mock_get_def read_value_def prop_read_def
      object_prototype_names_def prototype_member_def)

section \<open>Accessors return copies\<close>

text \<open>The reference-level accessors compute what the accessors on stores compute.\<close>

lemma map_of_map_values:
  "map_of (map (\<lambda>(n, a). (n, f a)) ob) name = map_option f (map_of ob name)"
  by (induction ob) auto

lemma map_of_contents:
  "map_of (contents h t) name = map_option (sects h) (map_of (tops h t) name)"
  by (simp add: contents_def map_of_map_values)

lemma prop_read_contents:
  "prop_read (contents h t) name =
     (case prop_read (tops h t) name of Own a \<Rightarrow> Own (sects h a) | Inherited m \<Rightarrow> Inherited m | Absent \<Rightarrow> Absent)"
  by (simp add: prop_read_def map_of_contents split: option.splits)

lemma get_at_contents: "get_at h root section key = read_value (contents h root) section key"
  by (simp add: get_at_def read_value_def prop_read_contents split: lookup.splits)

lemma section_answer_contents: "section_answer h root section = read_section (contents h root) section"
  by (simp add: section_answer_def getSection_at_def read_section_def prop_read_contents new_sect_def
      split: lookup.splits)

lemma copy_sections_pure_copy: "copy_sections r c = Tracked r' \<Longrightarrow> pure_copy r c = r'"
  by (induction r c rule: copy_sections.induct) (auto split: tracked.splits)

lemma map_put:
  "map (\<lambda>(n, a). (n, f a)) (put ob name v) = put (map (\<lambda>(n, a). (n, f a)) ob) name (f v)"
  by (induction ob) auto

lemma set_put: "set (put ob name v) \<subseteq> set ob \<union> {(name, v)}"
  by (induction ob) (auto split: if_splits)

lemma copy_sections_at_contents:
  assumes "\<forall>(n, a) \<in> set es. a < sect_next h"
    and "\<forall>(n, a) \<in> set (tops h t). a < sect_next h"
  shows "contents (copy_sections_at h t es) t
         = pure_copy (contents h t) (map (\<lambda>(n, a). (n, sects h a)) es)"
  using assms
proof (induction es arbitrary: h)
  case Nil
  then show ?case by simp
next
  case (Cons na es)
  obtain n a where na: "na = (n, a)" by (cases na)
  let ?a' = "sect_next h"
  let ?h1 = "h\<lparr>sects := (sects h)(?a' := spread (sects h a)), sect_next := Suc ?a'\<rparr>"
  have c1: "contents ?h1 t = contents h t"
    using Cons.prems(2) by (auto simp: contents_def)
  have rest1: "map (\<lambda>(n, a). (n, sects ?h1 a)) es = map (\<lambda>(n, a). (n, sects h a)) es"
    using Cons.prems(1) by auto
  have none: "map_of (contents h t) n = None \<longleftrightarrow> map_of (tops h t) n = None"
    by (simp add: map_of_contents)
  show ?case
  proof (cases "map_of (tops h t) n = None \<and> n = ''__proto__''")
    case True
    have ih: "contents (copy_sections_at ?h1 t es) t
          = pure_copy (contents ?h1 t) (map (\<lambda>(n, a). (n, sects ?h1 a)) es)"
      using Cons.prems by (intro Cons.IH) (auto simp: less_Suc_eq)
    have lhs: "copy_sections_at h t (na # es) = copy_sections_at ?h1 t es"
      using True by (auto simp: na new_sect_def assign_object_def)
    have rhs: "pure_copy (contents h t) (map (\<lambda>(n, a). (n, sects h a)) (na # es))
               = pure_copy (contents h t) (map (\<lambda>(n, a). (n, sects h a)) es)"
      using True none by (auto simp: na assign_object_def)
    from ih show ?thesis unfolding lhs rhs c1 rest1 .
  next
    case False
    let ?h2 = "?h1\<lparr>tops := (tops ?h1)(t := put (tops ?h1 t) n ?a')\<rparr>"
    have c2: "contents ?h2 t = put (contents h t) n (spread (sects h a))"
    proof -
      have e1: "contents ?h2 t = map (\<lambda>(n, b). (n, sects ?h1 b)) (put (tops h t) n ?a')"
        by (simp add: contents_def)
      have e2: "map (\<lambda>(n, b). (n, sects ?h1 b)) (put (tops h t) n ?a')
                = put (map (\<lambda>(n, b). (n, sects ?h1 b)) (tops h t)) n (sects ?h1 ?a')"
        by (rule map_put)
      have e3: "map (\<lambda>(n, b). (n, sects ?h1 b)) (tops h t) = contents h t"
        using c1 by (simp add: contents_def)
      have e4: "sects ?h1 ?a' = spread (sects h a)" by simp
      show ?thesis by (simp only: e1 e2 e3 e4)
    qed
    have rest2: "map (\<lambda>(n, a). (n, sects ?h2 a)) es = map (\<lambda>(n, a). (n, sects h a)) es"
      using rest1 by simp
    have tops2: "\<forall>(m, b) \<in> set (tops ?h2 t). b < sect_next ?h2"
    proof -
      have "set (put (tops h t) n ?a') \<subseteq> set (tops h t) \<union> {(n, ?a')}"
        by (rule set_put)
      then show ?thesis using Cons.prems(2) by (auto simp: less_Suc_eq)
    qed
    have ih: "contents (copy_sections_at ?h2 t es) t
          = pure_copy (contents ?h2 t) (map (\<lambda>(n, a). (n, sects ?h2 a)) es)"
    proof (rule Cons.IH)
      show "\<forall>(n, a) \<in> set es. a < sect_next ?h2"
        using Cons.prems(1) by (auto simp: less_Suc_eq)
      show "\<forall>(n, a) \<in> set (tops ?h2 t). a < sect_next ?h2" by (rule tops2)
    qed
    have lhs: "copy_sections_at h t (na # es) = copy_sections_at ?h2 t es"
      using False by (auto simp: na new_sect_def assign_object_def)
    have rhs: "pure_copy (contents h t) (map (\<lambda>(n, a). (n, sects h a)) (na # es))
               = pure_copy (put (contents h t) n (spread (sects h a)))
                   (map (\<lambda>(n, a). (n, sects h a)) es)"
      using False none by (auto simp: na assign_object_def)
    from ih show ?thesis unfolding lhs rhs c2 rest2 .
  qed
qed

lemma all_answer_contents:
  assumes "allocated h root"
  shows "all_answer h root = pure_copy [] (contents h root)"
proof -
  let ?t = "top_next h"
  let ?h0 = "h\<lparr>tops := (tops h)(?t := []), top_next := Suc ?t\<rparr>"
  from assms have ne: "root \<noteq> ?t" by (auto simp: allocated_def)
  have "contents (copy_sections_at ?h0 ?t (tops h root)) ?t
        = pure_copy (contents ?h0 ?t) (map (\<lambda>(n, a). (n, sects ?h0 a)) (tops h root))"
    using assms by (intro copy_sections_at_contents) (auto simp: allocated_def)
  then show ?thesis
    by (simp add: all_answer_def getAllSections_at_def new_top_def contents_def)
qed

lemma writes_above_contents:
  assumes "allocated h root" and "writes_above h h h2"
  shows "contents h2 root = contents h root" and "allocated h2 root"
proof -
  from assms have t: "tops h2 root = tops h root"
    by (auto simp: allocated_def writes_above_def)
  from assms have s: "\<forall>(n, a) \<in> set (tops h root). sects h2 a = sects h a"
    by (auto simp: allocated_def writes_above_def)
  from t s show "contents h2 root = contents h root" by (auto simp: contents_def)
  from assms t show "allocated h2 root" by (fastforce simp: allocated_def writes_above_def)
qed

lemma writes_above_same_answers:
  assumes "allocated h root" and "writes_above h h h2"
  shows "same_answers h2 h root"
  using writes_above_contents [OF assms] assms(1)
  by (simp add: same_answers_def get_at_contents section_answer_contents all_answer_contents)


lemma getSection_at_fresh:
  assumes "getSection_at h root section = (Some a, h1)"
  shows "a = sect_next h \<and> writes_above h h h1"
  using assms
  by (auto simp: getSection_at_def new_sect_def writes_above_def split: lookup.splits)

lemma copy_sections_at_frame:
  "(\<forall>u. u \<noteq> t \<longrightarrow> tops (copy_sections_at h t es) u = tops h u)
   \<and> (\<forall>a < sect_next h. sects (copy_sections_at h t es) a = sects h a)
   \<and> top_next (copy_sections_at h t es) = top_next h
   \<and> sect_next h \<le> sect_next (copy_sections_at h t es)
   \<and> (\<forall>(n, a) \<in> set (tops (copy_sections_at h t es) t). (n, a) \<in> set (tops h t) \<or> sect_next h \<le> a)"
proof (induction es arbitrary: h)
  case Nil
  show ?case by auto
next
  case (Cons na es)
  obtain n a where na: "na = (n, a)" by (cases na)
  let ?a' = "sect_next h"
  let ?h1 = "h\<lparr>sects := (sects h)(?a' := spread (sects h a)), sect_next := Suc ?a'\<rparr>"
  show ?case
  proof (cases "map_of (tops h t) n = None \<and> n = ''__proto__''")
    case True
    then have step: "copy_sections_at h t (na # es) = copy_sections_at ?h1 t es"
      by (auto simp: na new_sect_def assign_object_def)
    from Cons.IH [of ?h1] show ?thesis unfolding step by (auto simp: less_Suc_eq)
  next
    case False
    let ?h2 = "?h1\<lparr>tops := (tops ?h1)(t := put (tops ?h1 t) n ?a')\<rparr>"
    from False have step: "copy_sections_at h t (na # es) = copy_sections_at ?h2 t es"
      by (auto simp: na new_sect_def assign_object_def)
    have sub: "set (tops ?h2 t) \<subseteq> set (tops h t) \<union> {(n, ?a')}"
      using set_put [of "tops h t" n ?a'] by simp
    from Cons.IH [of ?h2] sub show ?thesis unfolding step
      by (auto simp: less_Suc_eq)
  qed
qed

lemma getAllSections_at_fresh:
  assumes "getAllSections_at h root = (t, h1)"
  shows "t = top_next h \<and> (\<forall>(n, a) \<in> set (tops h1 t). sect_next h \<le> a) \<and> writes_above h h h1"
proof -
  let ?h0 = "h\<lparr>tops := (tops h)(top_next h := []), top_next := Suc (top_next h)\<rparr>"
  from assms have t: "t = top_next h" and h1: "h1 = copy_sections_at ?h0 t (tops h root)"
    by (auto simp: getAllSections_at_def new_top_def)
  from copy_sections_at_frame [of t ?h0 "tops h root"] t h1
  show ?thesis by (auto simp: writes_above_def)
qed

lemma writes_above_trans:
  "writes_above h h h1 \<Longrightarrow> writes_above h h1 h2 \<Longrightarrow> writes_above h h h2"
  by (simp add: writes_above_def)

text \<open>
  C8. \<^verbatim>\<open>getSection\<close> and \<^verbatim>\<open>getAllSections\<close> return copies: the object returned, and for
  \<^verbatim>\<open>getAllSections\<close> the section objects it refers to, are created by the call, and whatever
  is afterwards written to objects created by the call (entries added, removed or overwritten)
  leaves every answer of \<^verbatim>\<open>get\<close>, \<^verbatim>\<open>getSection\<close> and \<^verbatim>\<open>getAllSections\<close> on the provider as
  it was before the call.
\<close>

theorem returned_copies_are_separate:
  assumes "allocated h root"
  shows "(\<forall>section a h1 x. getSection_at h root section = (Some a, h1) \<longrightarrow>
            sect_next h \<le> a \<and> same_answers (h1\<lparr>sects := (sects h1)(a := x)\<rparr>) h root)
       \<and> (\<forall>t h1. getAllSections_at h root = (t, h1) \<longrightarrow>
            top_next h \<le> t \<and> (\<forall>(n, a) \<in> set (tops h1 t). sect_next h \<le> a)
            \<and> (\<forall>h2. writes_above h h1 h2 \<longrightarrow> same_answers h2 h root))"
proof (intro conjI allI impI)
  fix sname a h1 x
  assume g: "getSection_at h root sname = (Some a, h1)"
  from getSection_at_fresh [OF g] show "sect_next h \<le> a" by simp
  from getSection_at_fresh [OF g]
  have "writes_above h h (h1\<lparr>sects := (sects h1)(a := x)\<rparr>)"
    by (auto simp: writes_above_def)
  with assms show "same_answers (h1\<lparr>sects := (sects h1)(a := x)\<rparr>) h root"
    by (rule writes_above_same_answers)
next
  fix t h1
  assume g: "getAllSections_at h root = (t, h1)"
  from getAllSections_at_fresh [OF g] show "top_next h \<le> t" by simp
  from getAllSections_at_fresh [OF g] show "\<forall>(n, a) \<in> set (tops h1 t). sect_next h \<le> a" by simp
  fix h2
  assume "writes_above h h1 h2"
  with getAllSections_at_fresh [OF g] have "writes_above h h h2"
    by (blast intro: writes_above_trans)
  with assms show "same_answers h2 h root" by (rule writes_above_same_answers)
qed

theorem returned_copies_are_separate_witness:
  "get_at
     \<lparr>tops = (\<lambda>t. if t = 0 then [(''db'', 0)] else []),
      sects = (\<lambda>a. if a = 0 then [(''host'', ''localhost'')]
                     else if a = 1 then [(''host'', ''elsewhere''), (''added'', ''1'')] else []),
      top_next = 1, sect_next = 2\<rparr> 0 ''db'' ''host'' = Str ''localhost''
   \<and> getSection_at
     \<lparr>tops = (\<lambda>t. if t = 0 then [(''db'', 0)] else []),
      sects = (\<lambda>a. if a = 0 then [(''host'', ''localhost'')] else []),
      top_next = 1, sect_next = 1\<rparr> 0 ''db''
     = (Some 1, \<lparr>tops = (\<lambda>t. if t = 0 then [(''db'', 0)] else []),
      sects = (\<lambda>a. if a = 0 then [(''host'', ''localhost'')]
                     else if a = 1 then [(''host'', ''localhost'')] else []),
      top_next = 1, sect_next = 2\<rparr>)"
proof -
  let ?h = "\<lparr>tops = (\<lambda>t. if t = 0 then [(''db'', 0)] else []),
      sects = (\<lambda>a. if a = 0 then [(''host'', ''localhost'')] else []),
      top_next = 1, sect_next = (1::nat)\<rparr>"
  let ?h1 = "\<lparr>tops = (\<lambda>t. if t = 0 then [(''db'', 0)] else []),
      sects = (\<lambda>a. if a = 0 then [(''host'', ''localhost'')]
                     else if a = 1 then [(''host'', ''localhost'')] else []),
      top_next = 1, sect_next = (2::nat)\<rparr>"
  let ?x = "[(''host'', ''elsewhere''), (''added'', ''1'')]"
  have al: "allocated ?h 0" by (simp add: allocated_def)
  have g: "getSection_at ?h 0 ''db'' = (Some 1, ?h1)"
    by (simp add: getSection_at_def prop_read_def new_sect_def spread_def fun_eq_iff)
  from returned_copies_are_separate [OF al] g
  have "same_answers (?h1\<lparr>sects := (sects ?h1)(1 := ?x)\<rparr>) ?h 0" by blast
  then have "get_at (?h1\<lparr>sects := (sects ?h1)(1 := ?x)\<rparr>) 0 ''db'' ''host'' = get_at ?h 0 ''db'' ''host''"
    by (simp add: same_answers_def)
  moreover have "get_at ?h 0 ''db'' ''host'' = Str ''localhost''"
    by (simp add: get_at_def prop_read_def)
  moreover have "?h1\<lparr>sects := (sects ?h1)(1 := ?x)\<rparr> = \<lparr>tops = (\<lambda>t. if t = 0 then [(''db'', 0)] else []),
      sects = (\<lambda>a. if a = 0 then [(''host'', ''localhost'')]
                     else if a = 1 then [(''host'', ''elsewhere''), (''added'', ''1'')] else []),
      top_next = 1, sect_next = 2\<rparr>"
    by (simp add: fun_eq_iff)
  ultimately show ?thesis using g by simp
qed

end
